theory Spec2Isabelle
  imports Main "HOL-Library.Word"
begin

section \<open>Data model of paramstore.go\<close>

text \<open>
  The structs of the source are records. A Go pointer field (\<^verbatim>\<open>*string\<close>,
  \<^verbatim>\<open>*bool\<close>) is an option, \<open>None\<close> being nil. An \<^verbatim>\<open>int64\<close> is a
  64-bit word; the source only compares versions with \<^verbatim>\<open>!=\<close>.
\<close>

record Config =
  Delimiter :: string
  Path :: string
  WithDecryption :: bool
  AWSAccessKeyID :: string
  AWSSecretAccessKey :: string
  AWSRoleARN :: string
  AWSRegion :: string
  WatchInterval :: "64 word"

text \<open>The fields of \<^verbatim>\<open>types.Parameter\<close> that the source reads.\<close>

record Parameter =
  ARN :: "string option"
  Name :: "string option"
  Value :: "string option"
  Version :: "64 word"

text \<open>
  \<^verbatim>\<open>ssm.GetParametersByPathInput\<close>: the fields the source sets. The source stores
  \<^verbatim>\<open>&ps.config.WithDecryption\<close>; the configuration is never written after
  construction, so the pointer is modelled by the value it points to.
\<close>

record GetParametersByPathInput =
  input_Path :: "string option"
  input_WithDecryption :: "bool option"
  input_NextToken :: "string option"

record GetParametersByPathOutput =
  Parameters :: "Parameter list"
  NextToken :: "string option"

record ParamStore =
  config :: Config
  input :: GetParametersByPathInput
  params :: "Parameter list"
  cb :: "(string \<Rightarrow> string) option"

text \<open>
  A Go \<^verbatim>\<open>error\<close> value of this package is either made by \<^verbatim>\<open>errors.New\<close> or
  handed over from the SSM client. A nil pointer dereference is a panic, not an error
  value.
\<close>

datatype 'e error = ErrorsNew string | ClientError 'e

datatype panic = NilPointerDereference

text \<open>
  The SSM client is the external collaborator. It is a parameter of the model: a
  function from the state of the outside world and the request to the response
  (an error or a page) and the next state of the world.
\<close>

type_synonym ('w, 'e) client =
  "'w \<Rightarrow> GetParametersByPathInput \<Rightarrow> ('e + GetParametersByPathOutput) \<times> 'w"

text \<open>The zero value of the input struct, as a freshly constructed provider holds it.\<close>

definition zero_input :: GetParametersByPathInput where
  "zero_input = \<lparr>input_Path = None, input_WithDecryption = None, input_NextToken = None\<rparr>"

definition ProviderWithClient :: "Config \<Rightarrow> (string \<Rightarrow> string) option \<Rightarrow> ParamStore" where
  "ProviderWithClient cfg f = \<lparr>config = cfg, input = zero_input, params = [], cb = f\<rparr>"

section \<open>The pagination loop\<close>

text \<open>
  The loop of lines 96-111 (Read) and 154-170 (Watch). It calls the client with
  \<^verbatim>\<open>ps.input\<close>, returns at the first error, otherwise appends the page, stores the
  page's token in \<^verbatim>\<open>ps.input.NextToken\<close> and stops when the token is nil. The loop
  need not end, so the result is an option. Besides the outcome it returns the provider,
  the world and the requests issued so far, in order.
\<close>

partial_function (option) fetch ::
  "('w, 'e) client \<Rightarrow> 'w \<Rightarrow> ParamStore \<Rightarrow> Parameter list \<Rightarrow> GetParametersByPathInput list \<Rightarrow>
   (('e + Parameter list) \<times> ParamStore \<times> 'w \<times> GetParametersByPathInput list) option" where
  "fetch client w ps acc calls =
     (case client w (input ps) of
        (Inl err, w') \<Rightarrow> Some (Inl err, ps, w', calls @ [input ps])
      | (Inr result, w') \<Rightarrow>
          (let acc' = acc @ Parameters result;
               ps' = ps\<lparr>input := (input ps)\<lparr>input_NextToken := NextToken result\<rparr>\<rparr>
           in if NextToken result = None
              then Some (Inr acc', ps', w', calls @ [input ps])
              else fetch client w' ps' acc' (calls @ [input ps])))"

section \<open>Read\<close>

text \<open>
  Lines 117-131: the key is the parameter's name, passed through the caller's transform
  when there is one (\<open>transform_key\<close>). The flat map is filled in record order; a
  later record with the same key overwrites an earlier one. The value stored is the
  pointer \<^verbatim>\<open>param.Value\<close>.
\<close>

definition transform_key :: "(string \<Rightarrow> string) option \<Rightarrow> string \<Rightarrow> string" where
  "transform_key f name = (case f of None \<Rightarrow> name | Some g \<Rightarrow> g name)"

fun flatten ::
  "(string \<Rightarrow> string) option \<Rightarrow> Parameter list \<Rightarrow> (string \<rightharpoonup> string option) \<Rightarrow>
   panic + 'e error + (string \<rightharpoonup> string option)" where
  "flatten f [] mp = Inr (Inr mp)"
| "flatten f (param # rest) mp =
     (case Name param of
        None \<Rightarrow> Inl NilPointerDereference
      | Some name \<Rightarrow>
          (let key = transform_key f name
           in if key = [] then Inr (Inl (ErrorsNew ''transformed key is empty''))
              else flatten f rest (mp(key \<mapsto> Value param))))"

text \<open>
  Read returns a pair (mapping, error), nil being \<open>None\<close>. \<^verbatim>\<open>maps.Unflatten\<close> belongs
  to another package and is a parameter.
\<close>

definition Read ::
  "((string \<rightharpoonup> string option) \<Rightarrow> string \<Rightarrow> 'n) \<Rightarrow> ('w, 'e) client \<Rightarrow> 'w \<Rightarrow> ParamStore \<Rightarrow>
   ((panic + 'n option \<times> 'e error option) \<times> ParamStore \<times> 'w \<times> GetParametersByPathInput list) option" where
  "Read Unflatten client w ps =
     (if Path (config ps) = []
      then Some (Inr (None, Some (ErrorsNew ''no parameter path provided'')), ps, w, [])
      else
        (let ps1 = ps\<lparr>input := \<lparr>input_Path = Some (Path (config ps)),
                                input_WithDecryption = Some (WithDecryption (config ps)),
                                input_NextToken = None\<rparr>\<rparr>
         in case fetch client w ps1 [] [] of
              None \<Rightarrow> None
            | Some (Inl err, ps2, w2, calls) \<Rightarrow> Some (Inr (None, Some (ClientError err)), ps2, w2, calls)
            | Some (Inr fetched, ps2, w2, calls) \<Rightarrow>
                (let ps3 = ps2\<lparr>params := fetched\<rparr>
                 in case flatten (cb ps3) fetched Map.empty of
                      Inl p \<Rightarrow> Some (Inl p, ps3, w2, calls)
                    | Inr (Inl e) \<Rightarrow> Some (Inr (None, Some e), ps3, w2, calls)
                    | Inr (Inr mp) \<Rightarrow>
                        Some (Inr (Some (Unflatten mp (Delimiter (config ps3))), None), ps3, w2, calls))))"

definition ReadBytes :: "ParamStore \<Rightarrow> 8 word list option \<times> 'e error option" where
  "ReadBytes ps = (None, Some (ErrorsNew ''paramstore provider does not support ReadBytes method''))"

section \<open>Watch: one tick of the polling loop\<close>

text \<open>
  Lines 173-180. For each new parameter the stored parameters are scanned; the new
  parameter is appended once for every stored parameter with the same ARN and a
  different version. Both ARN pointers are dereferenced for every pair visited.
\<close>

fun scan_saved :: "Parameter \<Rightarrow> Parameter list \<Rightarrow> Parameter list \<Rightarrow> panic + Parameter list" where
  "scan_saved newParam [] updatedParams = Inr updatedParams"
| "scan_saved newParam (p # rest) updatedParams =
     (case ARN p of
        None \<Rightarrow> Inl NilPointerDereference
      | Some a \<Rightarrow>
          (case ARN newParam of
             None \<Rightarrow> Inl NilPointerDereference
           | Some b \<Rightarrow>
               scan_saved newParam rest
                 (if a = b \<and> Version newParam \<noteq> Version p
                  then updatedParams @ [newParam] else updatedParams)))"

fun check_for_updates :: "Parameter list \<Rightarrow> Parameter list \<Rightarrow> Parameter list \<Rightarrow> panic + Parameter list" where
  "check_for_updates [] saved updatedParams = Inr updatedParams"
| "check_for_updates (newParam # rest) saved updatedParams =
     (case scan_saved newParam saved updatedParams of
        Inl p \<Rightarrow> Inl p
      | Inr updatedParams' \<Rightarrow> check_for_updates rest saved updatedParams')"

text \<open>
  Lines 182-185: the callback is triggered with the updated parameters only when there
  is at least one. An invocation of the callback is a pair (event, error).
\<close>

definition trigger_update ::
  "Parameter list \<Rightarrow> (Parameter list option \<times> 'e error option) list" where
  "trigger_update updatedParams =
     (if length updatedParams > 0 then [(Some updatedParams, None)] else [])"

text \<open>
  The body of the loop over \<^verbatim>\<open>ticker.C\<close> (lines 147-186). The caller's callback is not
  part of the provider: the tick returns the list of its invocations. On a fetch error
  the callback gets the client's error and the tick ends (\<^verbatim>\<open>continue main\<close>).
\<close>

definition Watch_tick ::
  "('w, 'e) client \<Rightarrow> 'w \<Rightarrow> ParamStore \<Rightarrow>
   ((panic + (Parameter list option \<times> 'e error option) list) \<times> ParamStore \<times> 'w \<times>
    GetParametersByPathInput list) option" where
  "Watch_tick client w ps =
     (case fetch client w ps [] [] of
        None \<Rightarrow> None
      | Some (Inl err, ps', w', calls) \<Rightarrow> Some (Inr [(None, Some (ClientError err))], ps', w', calls)
      | Some (Inr fetched, ps', w', calls) \<Rightarrow>
          (case check_for_updates fetched (params ps') [] of
             Inl p \<Rightarrow> Some (Inl p, ps', w', calls)
           | Inr updatedParams \<Rightarrow> Some (Inr (trigger_update updatedParams), ps', w', calls)))"

section \<open>Collaborators and parameters for concrete runs\<close>

text \<open>
  A collaborator whose world is the number of calls made so far: the response may depend
  on that number and on the request.
\<close>

definition counting ::
  "(nat \<Rightarrow> GetParametersByPathInput \<Rightarrow> string + GetParametersByPathOutput) \<Rightarrow> (nat, string) client" where
  "counting respond n i = (respond n i, Suc n)"

definition parameter :: "string \<Rightarrow> string \<Rightarrow> string \<Rightarrow> 64 word \<Rightarrow> Parameter" where
  "parameter a n v k = \<lparr>ARN = Some a, Name = Some n, Value = Some v, Version = k\<rparr>"

definition A1 :: Parameter where "A1 = parameter ''arn:a'' ''/app/a'' ''x'' 1"
definition A2 :: Parameter where "A2 = parameter ''arn:a'' ''/app/a'' ''y'' 2"
definition B1 :: Parameter where "B1 = parameter ''arn:b'' ''/app/b'' ''z'' 1"
definition C1 :: Parameter where "C1 = parameter ''arn:c'' ''/app/c'' ''u'' 1"
definition D1 :: Parameter where "D1 = parameter ''arn:d'' ''/app/d'' ''v'' 1"
definition E1 :: Parameter where "E1 = parameter ''arn:e'' ''/app/e'' ''w'' 1"

definition cfg0 :: Config where
  "cfg0 = \<lparr>Delimiter = ''/'', Path = ''/app'', WithDecryption = True, AWSAccessKeyID = [],
            AWSSecretAccessKey = [], AWSRoleARN = [], AWSRegion = [], WatchInterval = 0\<rparr>"

definition request :: "Config \<Rightarrow> string option \<Rightarrow> GetParametersByPathInput" where
  "request cfg token = \<lparr>input_Path = Some (Path cfg),
                         input_WithDecryption = Some (WithDecryption cfg),
                         input_NextToken = token\<rparr>"

text \<open>The provider after a Read that fetched \<open>[A1, B1]\<close> with no key transform.\<close>

definition seeded :: ParamStore where
  "seeded = \<lparr>config = cfg0, input = request cfg0 None, params = [A1, B1], cb = None\<rparr>"

text \<open>A store that holds A at version 1 for the first call and at version 2, with a new
  parameter C, from then on; every pass is a single page.\<close>

definition drift :: "nat \<Rightarrow> GetParametersByPathInput \<Rightarrow> string + GetParametersByPathOutput" where
  "drift n i = (if n = 0 then Inr \<lparr>Parameters = [A1, B1], NextToken = None\<rparr>
                else Inr \<lparr>Parameters = [A2, B1, C1], NextToken = None\<rparr>)"

text \<open>A store of two pages, \<open>[A2]\<close> then \<open>[B1]\<close>, whose second call fails.\<close>

definition flaky :: "nat \<Rightarrow> GetParametersByPathInput \<Rightarrow> string + GetParametersByPathOutput" where
  "flaky n i = (if n = 1 then Inl ''throttled''
                else if input_NextToken i = None
                then Inr \<lparr>Parameters = [A2], NextToken = Some ''t1''\<rparr>
                else Inr \<lparr>Parameters = [B1], NextToken = None\<rparr>)"

text \<open>A store of three pages with 2, 2 and 1 records, addressed by token.\<close>

definition three_pages :: "nat \<Rightarrow> GetParametersByPathInput \<Rightarrow> string + GetParametersByPathOutput" where
  "three_pages n i =
     (if input_NextToken i = None then Inr \<lparr>Parameters = [A1, B1], NextToken = Some ''t1''\<rparr>
      else if input_NextToken i = Some ''t1'' then Inr \<lparr>Parameters = [C1, D1], NextToken = Some ''t2''\<rparr>
      else if input_NextToken i = Some ''t2'' then Inr \<lparr>Parameters = [E1], NextToken = None\<rparr>
      else Inl ''invalid token'')"

text \<open>A key transform that maps the name of B to the empty string.\<close>

definition blank_b :: "string \<Rightarrow> string" where
  "blank_b s = (if s = ''/app/b'' then [] else s)"

text \<open>A stand-in for \<^verbatim>\<open>maps.Unflatten\<close> that returns the flat map unchanged.\<close>

definition keep_flat :: "(string \<rightharpoonup> string option) \<Rightarrow> string \<Rightarrow> (string \<rightharpoonup> string option)" where
  "keep_flat mp delim = mp"

section \<open>Properties of the pagination loop\<close>

lemma fetch_error:
  "client w (input ps) = (Inl err, w') \<Longrightarrow>
   fetch client w ps acc calls = Some (Inl err, ps, w', calls @ [input ps])"
  by (subst fetch.simps) simp



lemma fetch_counting:
  "fetch (counting respond) n ps acc calls =
     (case respond n (input ps) of
        Inl err \<Rightarrow> Some (Inl err, ps, Suc n, calls @ [input ps])
      | Inr result \<Rightarrow>
          (case NextToken result of
             None \<Rightarrow> Some (Inr (acc @ Parameters result),
                           ps\<lparr>input := (input ps)\<lparr>input_NextToken := None\<rparr>\<rparr>, Suc n, calls @ [input ps])
           | Some t \<Rightarrow> fetch (counting respond) (Suc n)
                         (ps\<lparr>input := (input ps)\<lparr>input_NextToken := Some t\<rparr>\<rparr>)
                         (acc @ Parameters result) (calls @ [input ps])))"
  by (subst fetch.simps) (simp add: counting_def split: sum.split option.split)

lemma fetch_frame:
  assumes "fetch client w ps acc calls = Some out"
  shows "config (fst (snd out)) = config ps \<and> params (fst (snd out)) = params ps \<and>
   cb (fst (snd out)) = cb ps \<and>
   input_Path (input (fst (snd out))) = input_Path (input ps) \<and>
   input_WithDecryption (input (fst (snd out))) = input_WithDecryption (input ps) \<and>
   (\<exists>rest. snd (snd (snd out)) = calls @ input ps # rest)"
  using assms
proof (induction rule: fetch.raw_induct[rotated 1, consumes 1, case_names step])
  case (step fetch client w ps acc calls out)
  show ?case
  proof (cases "client w (input ps)")
    case (Pair r w')
    show ?thesis
    proof (cases r)
      case (Inl err)
      with Pair step(2) show ?thesis by auto
    next
      case (Inr result)
      show ?thesis
      proof (cases "NextToken result")
        case None
        with Pair Inr step(2) show ?thesis by auto
      next
        case (Some t)
        with Pair Inr step(2) have
          "fetch client w' (ps\<lparr>input := (input ps)\<lparr>input_NextToken := Some t\<rparr>\<rparr>)
             (acc @ Parameters result) (calls @ [input ps]) = Some out"
          by simp
        from step(1)[OF this] show ?thesis by auto
      qed
    qed
  qed
qed

lemma fetch_params: "fetch client w ps acc calls = Some (r, ps', w', calls') \<Longrightarrow> params ps' = params ps"
  by (drule fetch_frame) simp

lemma fetch_cb: "fetch client w ps acc calls = Some (r, ps', w', calls') \<Longrightarrow> cb ps' = cb ps"
  by (drule fetch_frame) simp

lemma fetch_config: "fetch client w ps acc calls = Some (r, ps', w', calls') \<Longrightarrow> config ps' = config ps"
  by (drule fetch_frame) simp


subsection \<open>The comparison of a fetched snapshot with the stored one\<close>

lemma scan_saved_empty: "scan_saved n [] upd = Inr upd"
  by simp

lemma scan_saved_eq:
  "ARN n \<noteq> None \<Longrightarrow> \<forall>p\<in>set P. ARN p \<noteq> None \<Longrightarrow>
   scan_saved n P upd =
     Inr (upd @ map (\<lambda>p. n) (filter (\<lambda>p. ARN p = ARN n \<and> Version n \<noteq> Version p) P))"
  by (induction P arbitrary: upd) auto

lemma check_for_updates_no_saved: "check_for_updates N [] upd = Inr upd"
  by (induction N arbitrary: upd) auto

lemma check_for_updates_eq:
  "\<forall>n\<in>set N. ARN n \<noteq> None \<Longrightarrow> \<forall>p\<in>set P. ARN p \<noteq> None \<Longrightarrow>
   check_for_updates N P upd =
     Inr (upd @ concat (map (\<lambda>n. map (\<lambda>p. n)
            (filter (\<lambda>p. ARN p = ARN n \<and> Version n \<noteq> Version p) P)) N))"
  by (induction N arbitrary: upd) (auto simp: scan_saved_eq)

lemma mem_updates:
  "x \<in> set (concat (map (\<lambda>n. map (\<lambda>p. n) (filter (Q n) P)) N)) =
   (x \<in> set N \<and> (\<exists>p\<in>set P. Q x p))"
  by (induction N) (auto simp: image_iff)

lemma updates_empty:
  "(concat (map (\<lambda>n. map (\<lambda>p. n) (filter (Q n) P)) N) = []) =
   (\<forall>n\<in>set N. \<forall>p\<in>set P. \<not> Q n p)"
  by (induction N) (simp_all add: filter_empty_conv)

subsection \<open>One tick\<close>

lemma Watch_tick_fetched:
  "fetch client w ps [] [] = Some (Inr fetched, ps', w', calls) \<Longrightarrow>
   Watch_tick client w ps =
     Some (map_sum id trigger_update (check_for_updates fetched (params ps) []), ps', w', calls)"
  by (frule fetch_params) (simp add: Watch_tick_def split: sum.split)

lemma Watch_tick_failed:
  "fetch client w ps [] [] = Some (Inl err, ps', w', calls) \<Longrightarrow>
   Watch_tick client w ps = Some (Inr [(None, Some (ClientError err))], ps', w', calls)"
  by (simp add: Watch_tick_def)

subsection \<open>The flat map\<close>



lemma flatten_empty_key:
  "p \<in> set ps \<Longrightarrow> Name p = Some name \<Longrightarrow> transform_key f name = [] \<Longrightarrow>
   \<forall>q\<in>set ps. Name q \<noteq> None \<Longrightarrow>
   flatten f ps mp = Inr (Inl (ErrorsNew ''transformed key is empty''))"
  by (induction ps arbitrary: mp) (auto simp: Let_def)

subsection \<open>Read in terms of the pagination loop\<close>

lemma Read_fetched:
  assumes "Path (config ps) \<noteq> []"
    and "fetch client w (ps\<lparr>input := request (config ps) None\<rparr>) [] [] = Some (Inr fetched, ps2, w2, calls)"
  shows "Read Unflatten client w ps =
     (case flatten (cb ps) fetched Map.empty of
        Inl p \<Rightarrow> Some (Inl p, ps2\<lparr>params := fetched\<rparr>, w2, calls)
      | Inr (Inl e) \<Rightarrow> Some (Inr (None, Some e), ps2\<lparr>params := fetched\<rparr>, w2, calls)
      | Inr (Inr mp) \<Rightarrow>
          Some (Inr (Some (Unflatten mp (Delimiter (config ps))), None), ps2\<lparr>params := fetched\<rparr>, w2, calls))"
proof -
  from fetch_cb[OF assms(2)] have c: "cb ps2 = cb ps" by simp
  from fetch_config[OF assms(2)] have d: "config ps2 = config ps" by simp
  from assms c d show ?thesis
    by (simp add: Read_def request_def split: sum.split)
qed

lemma Read_failed:
  assumes "Path (config ps) \<noteq> []"
    and "fetch client w (ps\<lparr>input := request (config ps) None\<rparr>) [] [] = Some (Inl err, ps2, w2, calls)"
  shows "Read Unflatten client w ps = Some (Inr (None, Some (ClientError err)), ps2, w2, calls)"
  using assms by (simp add: Read_def request_def)

lemma failed_tick_keeps_snapshot:
  assumes "fetch client w ps [] [] = Some (Inl err, ps', w', calls)"
  shows "Watch_tick client w ps = Some (Inr [(None, Some (ClientError err))], ps', w', calls) \<and>
         params ps' = params ps"
  using Watch_tick_failed[OF assms] fetch_params[OF assms] by simp

section \<open>The claims\<close>

lemmas fixtures = A1_def A2_def B1_def C1_def D1_def E1_def parameter_def cfg0_def request_def
  seeded_def drift_def flaky_def three_pages_def blank_b_def keep_flat_def

subsection \<open>The change detector\<close>

text \<open>
  C2: for snapshots whose records carry an identity (no nil ARN), the comparison of a new
  snapshot \<open>N\<close> with the stored snapshot \<open>P\<close> returns, as a set, exactly the records of
  \<open>N\<close> whose ARN occurs in \<open>P\<close> with a different version; no record whose ARN is absent
  from \<open>P\<close> is returned. With an empty \<open>P\<close> the result is empty, whatever \<open>N\<close> is.
\<close>

theorem C2_change_detector:
  "check_for_updates N [] [] = Inr [] \<and>
   ((\<forall>p\<in>set P \<union> set N. ARN p \<noteq> None) \<longrightarrow>
    (\<exists>upd. check_for_updates N P [] = Inr upd \<and>
       set upd = {n \<in> set N. \<exists>p\<in>set P. ARN p = ARN n \<and> Version n \<noteq> Version p} \<and>
       (\<forall>n\<in>set upd. ARN n \<in> ARN ` set P)))"
proof (intro conjI impI)
  show "check_for_updates N [] [] = Inr []"
    by (rule check_for_updates_no_saved)
next
  assume nonnil: "\<forall>p\<in>set P \<union> set N. ARN p \<noteq> None"
  let ?upd = "concat (map (\<lambda>n. map (\<lambda>p. n)
            (filter (\<lambda>p. ARN p = ARN n \<and> Version n \<noteq> Version p) P)) N)"
  from nonnil have "check_for_updates N P [] = Inr ([] @ ?upd)"
    by (intro check_for_updates_eq) simp_all
  then have eq: "check_for_updates N P [] = Inr ?upd"
    by (simp only: append_Nil)
  have s: "set ?upd = {n \<in> set N. \<exists>p\<in>set P. ARN p = ARN n \<and> Version n \<noteq> Version p}"
    by (rule set_eqI) (simp only: mem_updates mem_Collect_eq)
  have "\<forall>n\<in>set ?upd. ARN n \<in> ARN ` set P"
  proof
    fix n assume "n \<in> set ?upd"
    then obtain p where "p \<in> set P" "ARN p = ARN n"
      unfolding s by blast
    then show "ARN n \<in> ARN ` set P"
      by (metis imageI)
  qed
  with eq s show "\<exists>upd. check_for_updates N P [] = Inr upd \<and>
       set upd = {n \<in> set N. \<exists>p\<in>set P. ARN p = ARN n \<and> Version n \<noteq> Version p} \<and>
       (\<forall>n\<in>set upd. ARN n \<in> ARN ` set P)"
    by (intro exI[of _ ?upd] conjI)
qed

theorem C2_change_detector_witness:
  "ARN A1 \<noteq> None \<and> ARN B1 \<noteq> None \<and> ARN A2 \<noteq> None \<and> ARN C1 \<noteq> None \<and>
   check_for_updates [A2, B1, C1] [] [] = Inr [] \<and>
   (\<exists>upd. check_for_updates [A2, B1, C1] [A1, B1] [] = Inr upd \<and>
       set upd = {n \<in> set [A2, B1, C1]. \<exists>p\<in>set [A1, B1]. ARN p = ARN n \<and> Version n \<noteq> Version p} \<and>
       (\<forall>n\<in>set upd. ARN n \<in> ARN ` set [A1, B1])) \<and>
   check_for_updates [A2, B1, C1] [A1, B1] [] = Inr [A2]"
proof -
  have a: "ARN A1 \<noteq> None \<and> ARN B1 \<noteq> None \<and> ARN A2 \<noteq> None \<and> ARN C1 \<noteq> None"
    by (simp add: fixtures)
  then have h: "\<forall>p\<in>set [A1, B1] \<union> set [A2, B1, C1]. ARN p \<noteq> None"
    by simp
  have c: "check_for_updates [A2, B1, C1] [A1, B1] [] = Inr [A2]"
    by (simp add: fixtures)
  note t = C2_change_detector[of "[A2, B1, C1]" "[A1, B1]"]
  from t have t1: "check_for_updates [A2, B1, C1] [] [] = Inr []" ..
  from t h have t2: "\<exists>upd. check_for_updates [A2, B1, C1] [A1, B1] [] = Inr upd \<and>
       set upd = {n \<in> set [A2, B1, C1]. \<exists>p\<in>set [A1, B1]. ARN p = ARN n \<and> Version n \<noteq> Version p} \<and>
       (\<forall>n\<in>set upd. ARN n \<in> ARN ` set [A1, B1])"
    by (elim conjE impE)
  from a t1 t2 c show ?thesis
    by blast
qed

text \<open>
  C4, as stated, fails: a snapshot that lists the same ARN at two versions, compared with
  itself, yields both records.
\<close>

theorem C4_counterexample:
  "check_for_updates [A1, A2] [A1, A2] [] = Inr [A1, A2] \<and>
   check_for_updates [A1, A2] [A1, A2] [] \<noteq> Inr []"
  by (simp add: fixtures)

text \<open>
  C4, amended: for a snapshot \<open>P\<close> whose records carry an identity, comparing \<open>P\<close> with
  itself yields no change exactly when no two records of \<open>P\<close> share an ARN and differ
  in version.
\<close>

theorem C4_self_comparison:
  assumes "\<forall>p\<in>set P. ARN p \<noteq> None"
  shows "(check_for_updates P P [] = Inr []) =
         (\<forall>p\<in>set P. \<forall>q\<in>set P. ARN p = ARN q \<longrightarrow> Version p = Version q)"
proof -
  let ?upd = "concat (map (\<lambda>n. map (\<lambda>p. n)
            (filter (\<lambda>p. ARN p = ARN n \<and> Version n \<noteq> Version p) P)) P)"
  from assms have "check_for_updates P P [] = Inr ([] @ ?upd)"
    by (intro check_for_updates_eq)
  then have e: "check_for_updates P P [] = Inr ?upd"
    by (simp only: append_Nil)
  have "(check_for_updates P P [] = Inr []) = (?upd = [])"
    unfolding e by (simp only: sum.inject)
  also have "\<dots> = (\<forall>n\<in>set P. \<forall>p\<in>set P. \<not> (ARN p = ARN n \<and> Version n \<noteq> Version p))"
    by (rule updates_empty)
  also have "\<dots> = (\<forall>p\<in>set P. \<forall>q\<in>set P. ARN p = ARN q \<longrightarrow> Version p = Version q)"
    by metis
  finally show ?thesis .
qed

theorem C4_self_comparison_witness:
  "ARN A1 \<noteq> None \<and> ARN B1 \<noteq> None \<and> ARN A1 \<noteq> ARN B1 \<and>
   check_for_updates [A1, B1] [A1, B1] [] = Inr []"
proof -
  have a: "ARN A1 \<noteq> None \<and> ARN B1 \<noteq> None \<and> ARN A1 \<noteq> ARN B1"
    by (simp add: fixtures)
  then have h: "\<forall>p\<in>set [A1, B1]. ARN p \<noteq> None"
    by simp
  have u: "\<forall>p\<in>set [A1, B1]. \<forall>q\<in>set [A1, B1]. ARN p = ARN q \<longrightarrow> Version p = Version q"
    by (simp add: fixtures)
  from C4_self_comparison[OF h] u have "check_for_updates [A1, B1] [A1, B1] [] = Inr []"
    by (rule iffD2)
  with a show ?thesis by simp
qed

subsection \<open>Read\<close>

text \<open>
  C6: with an empty path Read returns (nil, "no parameter path provided") at once: the
  provider and the world are unchanged and no request has been issued.
\<close>

theorem C6_empty_path:
  "Path (config ps) = [] \<Longrightarrow>
   Read Unflatten client w ps =
     Some (Inr (None, Some (ErrorsNew ''no parameter path provided'')), ps, w, [])"
  by (simp add: Read_def)

theorem C6_empty_path_witness:
  "Path (config (ProviderWithClient (cfg0\<lparr>Path := []\<rparr>) None)) = [] \<and>
   Read keep_flat (counting three_pages) 0 (ProviderWithClient (cfg0\<lparr>Path := []\<rparr>) None) =
     Some (Inr (None, Some (ErrorsNew ''no parameter path provided'')),
           ProviderWithClient (cfg0\<lparr>Path := []\<rparr>) None, 0, [])"
proof -
  have h: "Path (config (ProviderWithClient (cfg0\<lparr>Path := []\<rparr>) None)) = []"
    by (simp add: ProviderWithClient_def)
  from h C6_empty_path[OF h, of keep_flat "counting three_pages" 0] show ?thesis
    by simp
qed



text \<open>
  C7: when the fetch has succeeded, every record has a name and the caller's transform
  maps the name of some record to the empty string, Read returns
  (nil, "transformed key is empty"): no mapping is returned.
\<close>

theorem C7_empty_key_aborts:
  assumes "Path (config ps) \<noteq> []"
    and "fetch (client :: ('w, 'e) client) w (ps\<lparr>input := request (config ps) None\<rparr>) [] [] =
           Some (Inr fetched, ps2, w2, calls)"
    and "\<forall>q\<in>set fetched. Name q \<noteq> None"
    and "cb ps = Some g"
    and "p \<in> set fetched" and "Name p = Some name" and "g name = []"
  shows "Read Unflatten client w ps =
           Some (Inr (None, Some (ErrorsNew ''transformed key is empty'')), ps2\<lparr>params := fetched\<rparr>, w2, calls)"
proof -
  from assms(4,7) have "transform_key (cb ps) name = []"
    by (simp add: transform_key_def)
  from flatten_empty_key[OF assms(5,6) this assms(3)]
  have "(flatten (cb ps) fetched Map.empty :: panic + 'e error + (string \<rightharpoonup> string option)) =
          Inr (Inl (ErrorsNew ''transformed key is empty''))" .
  with Read_fetched[OF assms(1,2), of Unflatten] show ?thesis
    by simp
qed

theorem C7_empty_key_aborts_witness:
  "Path (config (ProviderWithClient cfg0 (Some blank_b))) \<noteq> [] \<and>
   blank_b ''/app/b'' = [] \<and>
   Read keep_flat (counting drift) 0 (ProviderWithClient cfg0 (Some blank_b)) =
     Some (Inr (None, Some (ErrorsNew ''transformed key is empty'')),
           (ProviderWithClient cfg0 (Some blank_b))\<lparr>input := request cfg0 None, params := [A1, B1]\<rparr>,
           1, [request cfg0 None])"
proof -
  let ?ps = "ProviderWithClient cfg0 (Some blank_b)"
  have c: "config ?ps = cfg0" "cb ?ps = Some blank_b"
    by (simp_all add: ProviderWithClient_def)
  have path: "Path (config ?ps) \<noteq> []"
    by (simp add: ProviderWithClient_def cfg0_def)
  have f: "fetch (counting drift) 0 (?ps\<lparr>input := request (config ?ps) None\<rparr>) [] [] =
             Some (Inr [A1, B1], ?ps\<lparr>input := request cfg0 None\<rparr>, 1, [request cfg0 None])"
    by (simp add: c fetch_counting drift_def request_def)
  have n: "\<forall>q\<in>set [A1, B1]. Name q \<noteq> None"
    by (simp add: fixtures)
  have m: "B1 \<in> set [A1, B1]" "Name B1 = Some ''/app/b''" "blank_b ''/app/b'' = []"
    by (simp_all add: fixtures)
  from C7_empty_key_aborts[OF path f n c(2) m, of keep_flat] path m(3) show ?thesis
    by simp
qed



subsection \<open>Watch\<close>

text \<open>
  C8: a tick invokes the callback at most once; an invocation that carries an event
  carries a non-empty list of parameters and no error, and an invocation without an
  event carries an error.
\<close>

theorem C8_no_empty_event:
  assumes "Watch_tick client w ps = Some (Inr invocations, ps', w', calls)"
  shows "length invocations \<le> 1 \<and>
         (\<forall>(event, err)\<in>set invocations.
            case event of None \<Rightarrow> err \<noteq> None
                        | Some updatedParams \<Rightarrow> updatedParams \<noteq> [] \<and> err = None)"
  using assms
  by (auto simp: Watch_tick_def trigger_update_def split: option.splits sum.splits prod.splits if_splits)

theorem C8_no_empty_event_witness:
  "Watch_tick (counting drift) 1 seeded =
     Some (Inr [(Some [A2], None)], seeded, 2, [request cfg0 None]) \<and>
   length [(Some [A2], None :: string error option)] \<le> 1 \<and> [A2] \<noteq> []"
proof -
  have h: "Watch_tick (counting drift) 1 seeded =
     Some (Inr [(Some [A2], None)], seeded, 2, [request cfg0 None])"
    by (simp add: Watch_tick_def trigger_update_def fetch_counting fixtures)
  from C8_no_empty_event[OF h] have "length [(Some [A2], None :: string error option)] \<le> 1"
    by (rule conjunct1)
  with h show ?thesis
    by simp
qed

text \<open>
  C1, as stated, fails: after a Read that stored \<open>[A1, B1]\<close>, a tick that fetches
  \<open>[A2, B1, C1]\<close> reports \<open>[A2]\<close> and leaves \<open>[A1, B1]\<close> stored; the next tick fetches
  the same snapshot and reports \<open>[A2]\<close> again, although that snapshot compared with the
  one fetched by the tick before it has no change.
\<close>

theorem C1_counterexample:
  "map_option (fst \<circ> snd) (Read keep_flat (counting drift) 0 (ProviderWithClient cfg0 None)) = Some seeded \<and>
   params seeded = [A1, B1] \<and>
   fetch (counting drift) 1 seeded [] [] = Some (Inr [A2, B1, C1], seeded, 2, [request cfg0 None]) \<and>
   Watch_tick (counting drift) 1 seeded =
     Some (Inr [(Some [A2], None)], seeded, 2, [request cfg0 None]) \<and>
   params seeded \<noteq> [A2, B1, C1] \<and>
   Watch_tick (counting drift) 2 seeded =
     Some (Inr [(Some [A2], None)], seeded, 3, [request cfg0 None]) \<and>
   check_for_updates [A2, B1, C1] [A2, B1, C1] [] = Inr []"
  by (simp add: Read_def ProviderWithClient_def zero_input_def transform_key_def Watch_tick_def
      trigger_update_def fetch_counting fixtures)

text \<open>
  C1, amended: a tick whose fetch succeeds leaves the stored snapshot as it was, so this
  tick and the next one both compare what they fetch with the snapshot stored before
  the first of them (the one the last Read stored).
\<close>

theorem C1_tick_keeps_stored_snapshot:
  assumes "fetch client w ps [] [] = Some (Inr fetched, ps', w', calls)"
    and "fetch client w' ps' [] [] = Some (Inr fetched', ps'', w'', calls')"
  shows "params ps' = params ps \<and> params ps'' = params ps \<and>
         Watch_tick client w ps =
           Some (map_sum id trigger_update (check_for_updates fetched (params ps) []), ps', w', calls) \<and>
         Watch_tick client w' ps' =
           Some (map_sum id trigger_update (check_for_updates fetched' (params ps) []), ps'', w'', calls')"
proof -
  from assms(1) have a: "params ps' = params ps" by (rule fetch_params)
  from assms(2) have b: "params ps'' = params ps'" by (rule fetch_params)
  from Watch_tick_fetched[OF assms(1)] Watch_tick_fetched[OF assms(2)] a b show ?thesis
    by simp
qed

theorem C1_tick_keeps_stored_snapshot_witness:
  "fetch (counting drift) 1 seeded [] [] = Some (Inr [A2, B1, C1], seeded, 2, [request cfg0 None]) \<and>
   fetch (counting drift) 2 seeded [] [] = Some (Inr [A2, B1, C1], seeded, 3, [request cfg0 None]) \<and>
   params seeded = [A1, B1] \<and>
   Watch_tick (counting drift) 1 seeded =
     Some (map_sum id trigger_update (check_for_updates [A2, B1, C1] [A1, B1] []), seeded, 2,
           [request cfg0 None]) \<and>
   Watch_tick (counting drift) 2 seeded =
     Some (map_sum id trigger_update (check_for_updates [A2, B1, C1] [A1, B1] []), seeded, 3,
           [request cfg0 None]) \<and>
   check_for_updates [A2, B1, C1] [A1, B1] [] = Inr [A2]"
proof -
  have h1: "fetch (counting drift) 1 seeded [] [] = Some (Inr [A2, B1, C1], seeded, 2, [request cfg0 None])"
    by (simp add: fetch_counting fixtures)
  have h2: "fetch (counting drift) 2 seeded [] [] = Some (Inr [A2, B1, C1], seeded, 3, [request cfg0 None])"
    by (simp add: fetch_counting fixtures)
  have p: "params seeded = [A1, B1]"
    by (simp add: seeded_def)
  have c: "check_for_updates [A2, B1, C1] [A1, B1] [] = Inr [A2]"
    by (simp add: fixtures)
  from C1_tick_keeps_stored_snapshot[OF h1 h2] h1 h2 p c show ?thesis
    by simp
qed

text \<open>
  C3: the code at a tick whose second page request fails. The callback is invoked once
  with (nil, error) and the stored snapshot is kept, but the token of the first page stays
  in \<^verbatim>\<open>ps.input\<close>: the next tick starts at the second page, fetches \<open>[B1]\<close> only and does
  not report that A went from version 1 to version 2.
\<close>

theorem C3_failed_tick_moves_cursor:
  "input seeded = request cfg0 None \<and>
   Watch_tick (counting flaky) 0 seeded =
     Some (Inr [(None, Some (ClientError ''throttled''))],
           seeded\<lparr>input := request cfg0 (Some ''t1'')\<rparr>, 2,
           [request cfg0 None, request cfg0 (Some ''t1'')]) \<and>
   request cfg0 (Some ''t1'') \<noteq> request cfg0 None \<and>
   Watch_tick (counting flaky) 2 (seeded\<lparr>input := request cfg0 (Some ''t1'')\<rparr>) =
     Some (Inr [], seeded, 3, [request cfg0 (Some ''t1'')])"
  by (simp add: Watch_tick_def trigger_update_def fetch_counting fixtures)

subsection \<open>A failed Read followed by a tick\<close>

text \<open>
  C9: when Read fails on an empty transformed key, the provider it leaves behind already
  stores the records just fetched, and a following tick whose fetch succeeds compares
  against them.
\<close>

theorem C9_failed_read_replaces_snapshot:
  assumes "Path (config ps) \<noteq> []"
    and "fetch (client :: ('w, 'e) client) w (ps\<lparr>input := request (config ps) None\<rparr>) [] [] =
           Some (Inr fetched, ps2, w2, calls)"
    and "\<forall>q\<in>set fetched. Name q \<noteq> None"
    and "p \<in> set fetched" and "Name p = Some name" and "transform_key (cb ps) name = []"
    and "fetch (client' :: ('v, 'e) client) w' (ps2\<lparr>params := fetched\<rparr>) [] [] =
           Some (Inr fetched', ps3, w3, calls')"
  shows "\<exists>ps_after.
           Read Unflatten client w ps =
             Some (Inr (None, Some (ErrorsNew ''transformed key is empty'')), ps_after, w2, calls) \<and>
           params ps_after = fetched \<and>
           Watch_tick client' w' ps_after =
             Some (map_sum id trigger_update (check_for_updates fetched' fetched []), ps3, w3, calls')"
proof -
  from flatten_empty_key[OF assms(4,5,6,3)]
  have "(flatten (cb ps) fetched Map.empty :: panic + 'e error + (string \<rightharpoonup> string option)) =
          Inr (Inl (ErrorsNew ''transformed key is empty''))" .
  with Read_fetched[OF assms(1,2), of Unflatten] have r:
    "Read Unflatten client w ps =
       Some (Inr (None, Some (ErrorsNew ''transformed key is empty'')), ps2\<lparr>params := fetched\<rparr>, w2, calls)"
    by simp
  from Watch_tick_fetched[OF assms(7)] have t:
    "Watch_tick client' w' (ps2\<lparr>params := fetched\<rparr>) =
       Some (map_sum id trigger_update (check_for_updates fetched' fetched []), ps3, w3, calls')"
    by simp
  from r t show ?thesis
    by (intro exI[of _ "ps2\<lparr>params := fetched\<rparr>"]) simp
qed

theorem C9_failed_read_replaces_snapshot_witness:
  "Path (config (seeded\<lparr>params := [], cb := Some blank_b\<rparr>)) \<noteq> [] \<and>
   transform_key (Some blank_b) ''/app/b'' = [] \<and>
   (\<exists>ps_after.
      Read keep_flat (counting drift) 1 (seeded\<lparr>params := [], cb := Some blank_b\<rparr>) =
        Some (Inr (None, Some (ErrorsNew ''transformed key is empty'')), ps_after, 2, [request cfg0 None]) \<and>
      params ps_after = [A2, B1, C1] \<and>
      Watch_tick (counting drift) 2 ps_after =
        Some (map_sum id trigger_update (check_for_updates [A2, B1, C1] [A2, B1, C1] []),
              seeded\<lparr>params := [A2, B1, C1], cb := Some blank_b\<rparr>, 3, [request cfg0 None])) \<and>
   check_for_updates [A2, B1, C1] [A2, B1, C1] [] = Inr []"
proof -
  let ?ps = "seeded\<lparr>params := [], cb := Some blank_b\<rparr>"
  let ?ps2 = "seeded\<lparr>params := [], cb := Some blank_b\<rparr>"
  have path: "Path (config ?ps) \<noteq> []"
    by (simp add: seeded_def cfg0_def)
  have f: "fetch (counting drift) 1 (?ps\<lparr>input := request (config ?ps) None\<rparr>) [] [] =
             Some (Inr [A2, B1, C1], ?ps2, 2, [request cfg0 None])"
    by (simp add: fetch_counting drift_def request_def seeded_def)
  have n: "\<forall>q\<in>set [A2, B1, C1]. Name q \<noteq> None"
    by (simp add: fixtures)
  have m: "B1 \<in> set [A2, B1, C1]" "Name B1 = Some ''/app/b''"
    by (simp_all add: fixtures)
  have k: "transform_key (cb ?ps) ''/app/b'' = []"
    by (simp add: transform_key_def blank_b_def)
  have k': "transform_key (Some blank_b) ''/app/b'' = []"
    by (simp add: transform_key_def blank_b_def)
  have g: "fetch (counting drift) 2 (?ps2\<lparr>params := [A2, B1, C1]\<rparr>) [] [] =
             Some (Inr [A2, B1, C1], seeded\<lparr>params := [A2, B1, C1], cb := Some blank_b\<rparr>, 3,
                   [request cfg0 None])"
    by (simp add: fetch_counting drift_def request_def seeded_def)
  have c: "check_for_updates [A2, B1, C1] [A2, B1, C1] [] = Inr []"
    by (simp add: fixtures)
  from C9_failed_read_replaces_snapshot[OF path f n m k g, of keep_flat] path k' c show ?thesis
    by blast
qed

end
